theory Spec2Isabelle
  imports Complex_Main "HOL-Library.AList" "HOL-Library.Sublist"
begin

section \<open>Python values, dictionaries and errors\<close>

text \<open>
  The event metadata handed over by the controller is JSON-like data.  The scalar values
  that reach \<^verbatim>\<open>interact.py\<close> are modelled by \<open>pyval\<close>; a float is
  represented by the real number it denotes (no arithmetic is ever done on one here).
\<close>

datatype pyval = PNone | PBool bool | PInt int | PFloat real | PStr string

text \<open>Python truth value testing, as used by \<^verbatim>\<open>if o['visible']:\<close>.\<close>

fun truthy :: "pyval \<Rightarrow> bool" where
  "truthy PNone = False"
| "truthy (PBool b) = b"
| "truthy (PInt i) = (i \<noteq> 0)"
| "truthy (PFloat r) = (r \<noteq> 0)"
| "truthy (PStr s) = (s \<noteq> [])"

text \<open>Python \<^verbatim>\<open>==\<close>: numbers (booleans included) compare by value, everything else
  structurally, and values of different kinds are unequal.\<close>

fun num_of :: "pyval \<Rightarrow> real option" where
  "num_of (PBool b) = Some (if b then 1 else 0)"
| "num_of (PInt i) = Some (of_int i)"
| "num_of (PFloat r) = Some r"
| "num_of PNone = None"
| "num_of (PStr s) = None"

definition py_eq :: "pyval \<Rightarrow> pyval \<Rightarrow> bool" where
  "py_eq a b =
     (case (num_of a, num_of b) of
        (Some x, Some y) \<Rightarrow> x = y
      | (None, None) \<Rightarrow> a = b
      | _ \<Rightarrow> False)"

datatype error = KeyError string | RuntimeError string | TermiosError

type_synonym pydict = "string \<rightharpoonup> pyval"

text \<open>\<^verbatim>\<open>d[k]\<close> raises \<^verbatim>\<open>KeyError\<close> on a missing key.\<close>

definition getitem :: "pydict \<Rightarrow> string \<Rightarrow> error + pyval" where
  "getitem d k = (case d k of None \<Rightarrow> Inl (KeyError k) | Some v \<Rightarrow> Inr v)"

text \<open>Sequencing of computations that may raise: the first exception aborts the rest.\<close>

definition bind_err :: "error + 'a \<Rightarrow> ('a \<Rightarrow> error + 'b) \<Rightarrow> error + 'b" where
  "bind_err m f = (case m of Inl e \<Rightarrow> Inl e | Inr x \<Rightarrow> f x)"

subsection \<open>\<^verbatim>\<open>str\<close> of an integer\<close>

definition digit_char :: "nat \<Rightarrow> char" where
  "digit_char d = ''0123456789'' ! d"

fun str_nat :: "nat \<Rightarrow> string" where
  "str_nat n = (if n < 10 then [digit_char n] else str_nat (n div 10) @ [digit_char (n mod 10)])"

declare str_nat.simps [simp del]

definition py_str :: "int \<Rightarrow> string" where
  "py_str i = (if i < 0 then CHR ''-'' # str_nat (nat (- i)) else str_nat (nat i))"

section \<open>Commands and command tables\<close>

text \<open>
  A command is the keyword dictionary passed to \<^verbatim>\<open>controller.step\<close>; a command table maps
  key sequences to commands.  Python dictionaries keep insertion order, and assigning to an
  existing key keeps its position: this is \<^const>\<open>AList.update\<close> on an association list.
\<close>

type_synonym command = "(string \<times> pyval) list"
type_synonym table = "(string \<times> command) list"

definition dict_update :: "('k \<times> 'v) list \<Rightarrow> ('k \<times> 'v) list \<Rightarrow> ('k \<times> 'v) list" where
  "dict_update d other = fold (\<lambda>(k, v). AList.update k v) other d"

section \<open>Affordance enumeration (the body of the loop in \<^verbatim>\<open>interact\<close>)\<close>

text \<open>The variables the enumeration mutates: \<^verbatim>\<open>command_counter['counter']\<close>,
  \<^verbatim>\<open>new_commands\<close> and \<^verbatim>\<open>visible_objects\<close>.\<close>

record enum_state =
  command_counter :: int
  new_commands :: table
  visible_objects :: "pyval list"

definition add_command :: "enum_state \<Rightarrow> string \<Rightarrow> command \<Rightarrow> enum_state" where
  "add_command cc action args =
     (if command_counter cc < 15
      then cc\<lparr> new_commands :=
                 AList.update (py_str (command_counter cc))
                   (dict_update [(''action'', PStr action)] args) (new_commands cc),
               command_counter := command_counter cc + 1 \<rparr>
      else cc)"

text \<open>\<^verbatim>\<open>if o['openable']: if o['isopen']: CloseObject else: OpenObject\<close>\<close>

definition open_branch :: "pydict \<Rightarrow> enum_state \<Rightarrow> error + enum_state" where
  "open_branch o' st =
     bind_err (getitem o' ''openable'') (\<lambda>openable.
       if truthy openable then
         bind_err (getitem o' ''isopen'') (\<lambda>isopen.
           if truthy isopen then
             bind_err (getitem o' ''objectId'') (\<lambda>oid.
               Inr (add_command st ''CloseObject'' [(''objectId'', oid)]))
           else
             bind_err (getitem o' ''objectId'') (\<lambda>oid.
               Inr (add_command st ''OpenObject'' [(''objectId'', oid)])))
       else Inr st)"

text \<open>\<^verbatim>\<open>if 'toggleable' in o and o['toggleable']: ToggleObjectOff\<close>\<close>

definition toggle_branch :: "pydict \<Rightarrow> enum_state \<Rightarrow> error + enum_state" where
  "toggle_branch o' st =
     (if o' ''toggleable'' \<noteq> None then
        bind_err (getitem o' ''toggleable'') (\<lambda>toggleable.
          if truthy toggleable then
            bind_err (getitem o' ''objectId'') (\<lambda>oid.
              Inr (add_command st ''ToggleObjectOff'' [(''objectId'', oid)]))
          else Inr st)
      else Inr st)"

text \<open>The condition
  \<^verbatim>\<open>o['receptacle'] and (not o['openable'] or o['isopen']) and inventoryObjectId != o['objectId']\<close>
  with Python's left-to-right short-circuit evaluation.\<close>

definition put_condition :: "pydict \<Rightarrow> pyval \<Rightarrow> error + bool" where
  "put_condition o' inventoryObjectId =
     bind_err (getitem o' ''receptacle'') (\<lambda>receptacle.
       if \<not> truthy receptacle then Inr False
       else
         bind_err (getitem o' ''openable'') (\<lambda>openable.
           bind_err (if \<not> truthy openable then Inr True
                     else bind_err (getitem o' ''isopen'') (\<lambda>isopen. Inr (truthy isopen)))
             (\<lambda>accessible.
               if \<not> accessible then Inr False
               else
                 bind_err (getitem o' ''objectId'') (\<lambda>oid.
                   Inr (\<not> py_eq inventoryObjectId oid)))))"

definition hand_commands :: "pyval \<Rightarrow> pyval \<Rightarrow> enum_state \<Rightarrow> enum_state" where
  "hand_commands inventoryObjectId oid st =
     (let st = add_command st ''PutObject''
                 [(''objectId'', inventoryObjectId), (''receptacleObjectId'', oid)];
          st = add_command st ''MoveHandAhead'' [(''moveMagnitude'', PFloat 0.1)];
          st = add_command st ''MoveHandBack'' [(''moveMagnitude'', PFloat 0.1)];
          st = add_command st ''MoveHandRight'' [(''moveMagnitude'', PFloat 0.1)];
          st = add_command st ''MoveHandLeft'' [(''moveMagnitude'', PFloat 0.1)];
          st = add_command st ''MoveHandUp'' [(''moveMagnitude'', PFloat 0.1)];
          st = add_command st ''MoveHandDown'' [(''moveMagnitude'', PFloat 0.1)]
      in add_command st ''DropHandObject'' [])"

text \<open>\<^verbatim>\<open>if len(event.metadata['inventoryObjects']) > 0: ... elif o['pickupable']: ...\<close>\<close>

definition inventory_branch :: "pydict list \<Rightarrow> pydict \<Rightarrow> enum_state \<Rightarrow> error + enum_state" where
  "inventory_branch inventoryObjects o' st =
     (case inventoryObjects of
        inv0 # _ \<Rightarrow>
          bind_err (getitem inv0 ''objectId'') (\<lambda>inventoryObjectId.
            bind_err (put_condition o' inventoryObjectId) (\<lambda>c.
              if c then
                bind_err (getitem o' ''objectId'') (\<lambda>oid.
                  Inr (hand_commands inventoryObjectId oid st))
              else Inr st))
      | [] \<Rightarrow>
          bind_err (getitem o' ''pickupable'') (\<lambda>pickupable.
            if truthy pickupable then
              bind_err (getitem o' ''objectId'') (\<lambda>oid.
                Inr (add_command st ''PickupObject'' [(''objectId'', oid)]))
            else Inr st))"

text \<open>One iteration of \<^verbatim>\<open>for o in event.metadata['objects']\<close>.\<close>

definition process_object :: "pydict list \<Rightarrow> pydict \<Rightarrow> enum_state \<Rightarrow> error + enum_state" where
  "process_object inventoryObjects o' st =
     bind_err (getitem o' ''visible'') (\<lambda>visible.
       if truthy visible then
         bind_err (getitem o' ''objectId'') (\<lambda>oid.
           bind_err (open_branch o' (st\<lparr> visible_objects := visible_objects st @ [oid] \<rparr>))
             (\<lambda>st.
               bind_err (toggle_branch o' st) (\<lambda>st.
                 inventory_branch inventoryObjects o' st)))
       else Inr st)"

fun for_objects :: "pydict list \<Rightarrow> pydict list \<Rightarrow> enum_state \<Rightarrow> error + enum_state" where
  "for_objects inventoryObjects [] st = Inr st"
| "for_objects inventoryObjects (o' # os) st =
     (case process_object inventoryObjects o' st of
        Inl e \<Rightarrow> Inl e
      | Inr st' \<Rightarrow> for_objects inventoryObjects os st')"


text \<open>The event returned by \<^verbatim>\<open>controller.step\<close>: four optional frames (arrays of an
  unspecified type \<open>'f\<close>) and the metadata.\<close>

record metadata =
  objects :: "pydict list"
  inventoryObjects :: "pydict list"
  agent_position :: pyval

record 'f event =
  frame :: "'f option"
  instance_segmentation_frame :: "'f option"
  class_segmentation_frame :: "'f option"
  depth_frame :: "'f option"
  metadata :: metadata

text \<open>The dynamic table of one step: \<^verbatim>\<open>new_commands = {}\<close>,
  \<^verbatim>\<open>command_counter = dict(counter=1)\<close>, \<^verbatim>\<open>visible_objects = []\<close>, then the loop
  over the objects when \<^verbatim>\<open>has_object_actions\<close> is set.\<close>

definition initial_enum_state :: enum_state where
  "initial_enum_state = \<lparr> command_counter = 1, new_commands = [], visible_objects = [] \<rparr>"

definition enumerate_commands :: "bool \<Rightarrow> 'f event \<Rightarrow> error + enum_state" where
  "enumerate_commands has_object_actions event =
     (if has_object_actions
      then for_objects (inventoryObjects (metadata event)) (objects (metadata event))
             initial_enum_state
      else Inr initial_enum_state)"

section \<open>The key-sequence interpreter (\<^verbatim>\<open>next_interact_command\<close>)\<close>

text \<open>What one iteration of the \<^verbatim>\<open>while True\<close> loop does with the character just read:
  leave the loop, yield a command, or go on reading; the last two carry the new buffer.\<close>

datatype interp_result = Break | Yield command string | Continue string

definition interp_char :: "table \<Rightarrow> string \<Rightarrow> char \<Rightarrow> interp_result" where
  "interp_char commands current_buffer ch =
     (let current_buffer = current_buffer @ [ch] in
      if current_buffer = ''q'' \<or> current_buffer = [CHR 0x03] then Break
      else
        case map_of commands current_buffer of
          Some cmd \<Rightarrow> Yield cmd []
        | None \<Rightarrow>
            if list_ex (\<lambda>(k, v). prefix current_buffer k) commands
            then Continue current_buffer
            else Continue [])"

text \<open>Feeding characters to the generator until it yields or stops: the outcome is the end of
  the loop, the command yielded together with the buffer after the yield and the characters
  not yet read, or (input used up) the buffer the generator waits with.\<close>

datatype feed_result = Terminated | Yielded command string string | Pending string

fun feed :: "table \<Rightarrow> string \<Rightarrow> string \<Rightarrow> feed_result" where
  "feed commands current_buffer [] = Pending current_buffer"
| "feed commands current_buffer (ch # chs) =
     (case interp_char commands current_buffer ch of
        Break \<Rightarrow> Terminated
      | Yield cmd buf \<Rightarrow> Yielded cmd buf chs
      | Continue buf \<Rightarrow> feed commands buf chs)"


section \<open>Frame writing (\<^verbatim>\<open>write_image\<close>)\<close>

text \<open>
  The arrays themselves are opaque; \<open>'f image\<close> records which transformation the code
  applied to a frame before handing it to the writer.  The effects of \<^verbatim>\<open>write_image\<close> are
  its console lines and its calls of \<^verbatim>\<open>cv2.imwrite\<close> and \<^verbatim>\<open>np.save\<close>, in order.
  \<open>NpSave\<close> carries the file argument as the code passes it (numpy appends \<^verbatim>\<open>.npy\<close>).
\<close>

datatype 'f image =
    Unchanged 'f
  | BGR2RGB "'f image"
  | MinMaxUint8 'f
  | AsFloat32 "'f image"

datatype 'f effect =
    Print string
  | PrintShape 'f
  | ImWrite string "'f image"
  | NpSave string "'f image"
  | PrintCommandMessage
  | PrintPosition pyval
  | PrintVisibleObjects "pyval list"
  | PrintCommands table

text \<open>\<^verbatim>\<open>os.path.join(a, b)\<close> of \<^verbatim>\<open>posixpath\<close>.\<close>

definition os_path_join :: "string \<Rightarrow> string \<Rightarrow> string" where
  "os_path_join a b =
     (if prefix ''/'' b then b
      else if a = [] \<or> suffix ''/'' a then a @ b
      else a @ ''/'' @ b)"

text \<open>\<^verbatim>\<open>s.strip(chars)\<close>: every leading and trailing character that occurs in \<open>chars\<close>
  is removed.\<close>

definition py_strip :: "string \<Rightarrow> string \<Rightarrow> string" where
  "py_strip s chars =
     rev (dropWhile (\<lambda>c. c \<in> set chars) (rev (dropWhile (\<lambda>c. c \<in> set chars) s)))"

definition save_image :: "bool \<Rightarrow> string \<Rightarrow> 'f image \<Rightarrow> 'f effect" where
  "save_image flip_br name img = ImWrite name (if flip_br then BGR2RGB img else img)"

definition array_to_image :: "'f image \<Rightarrow> 'f image" where
  "array_to_image arr = arr"

type_synonym 'f frame_write =
  "string \<times> bool \<times> ('f event \<Rightarrow> 'f option) \<times> ('f \<Rightarrow> 'f image) \<times> (string \<Rightarrow> 'f image \<Rightarrow> 'f effect)"

text \<open>The list \<^verbatim>\<open>frame_writes\<close>: file name, enabling flag, frame selector, transformation
  and writer of each of the five channels.\<close>

definition frame_writes :: "bool \<Rightarrow> bool \<Rightarrow> bool \<Rightarrow> bool \<Rightarrow> 'f frame_write list" where
  "frame_writes class_segmentation_flag instance_segmentation_flag depth_flag color_flag =
     [ (''color'', color_flag, frame,
        (\<lambda>arr. array_to_image (Unchanged arr)), save_image True),
       (''instance_segmentation'', instance_segmentation_flag, instance_segmentation_frame,
        (\<lambda>arr. array_to_image (Unchanged arr)), save_image False),
       (''class_segmentation'', class_segmentation_flag, class_segmentation_frame,
        (\<lambda>arr. array_to_image (Unchanged arr)), save_image False),
       (''depth'', depth_flag, depth_frame,
        (\<lambda>data. array_to_image (MinMaxUint8 data)), save_image False),
       (''depth_raw'', depth_flag, depth_frame,
        Unchanged,
        (\<lambda>name x. NpSave (py_strip name ''.png'') (AsFloat32 x))) ]"

text \<open>\<^verbatim>\<open>os.path.join(image_dir, "{}{}.png".format(frame_filename,
  "{}".format(suffix) if image_per_frame else ""))\<close>\<close>

definition image_name :: "string \<Rightarrow> string \<Rightarrow> int \<Rightarrow> bool \<Rightarrow> string" where
  "image_name image_dir frame_filename suffix' image_per_frame =
     os_path_join image_dir
       (frame_filename @ (if image_per_frame then py_str suffix' else []) @ ''.png'')"

text \<open>The loop \<^verbatim>\<open>for frame_filename, condition, frame_func, transform, save in
  frame_writes\<close>.  The body reads \<open>frame_func\<close>, \<open>transform\<close> and \<open>save\<close>; it never reads
  \<open>condition\<close>.\<close>

fun write_frames ::
  "'f frame_write list \<Rightarrow> 'f event \<Rightarrow> string \<Rightarrow> int \<Rightarrow> bool \<Rightarrow> 'f effect list" where
  "write_frames [] event image_dir suffix' image_per_frame = []"
| "write_frames ((frame_filename, condition, frame_func, transform, save) # rest)
       event image_dir suffix' image_per_frame =
     (case frame_func event of
        Some frame' \<Rightarrow>
          [ PrintShape frame',
            Print (''Image '' @ image_name image_dir frame_filename suffix' image_per_frame),
            save (image_name image_dir frame_filename suffix' image_per_frame)
                 (transform frame') ]
      | None \<Rightarrow>
          [ Print ''No frame present, call initialize with the right parameters'' ])
     @ write_frames rest event image_dir suffix' image_per_frame"

definition write_image ::
  "'f event \<Rightarrow> string \<Rightarrow> int \<Rightarrow> bool \<Rightarrow> bool \<Rightarrow> bool \<Rightarrow> bool \<Rightarrow> bool \<Rightarrow> 'f effect list" where
  "write_image event image_dir suffix' image_per_frame
       class_segmentation_flag instance_segmentation_flag depth_flag color_flag =
     write_frames
       (frame_writes class_segmentation_flag instance_segmentation_flag depth_flag color_flag)
       event image_dir suffix' image_per_frame"

text \<open>What the effects of a call amount to: the files written and the diagnostics printed.\<close>

fun is_disk_write :: "'f effect \<Rightarrow> bool" where
  "is_disk_write (ImWrite name img) = True"
| "is_disk_write (NpSave name img) = True"
| "is_disk_write other = False"

definition no_frame_message :: "'f effect" where
  "no_frame_message = Print ''No frame present, call initialize with the right parameters''"


section \<open>The prompt object and the session loop (\<^verbatim>\<open>interact\<close>)\<close>

datatype DefaultActions =
  MoveRight | MoveLeft | MoveAhead | MoveBack | LookUp | LookDown | RotateRight | RotateLeft

fun name :: "DefaultActions \<Rightarrow> string" where
  "name MoveRight = ''MoveRight''"
| "name MoveLeft = ''MoveLeft''"
| "name MoveAhead = ''MoveAhead''"
| "name MoveBack = ''MoveBack''"
| "name LookUp = ''LookUp''"
| "name LookDown = ''LookDown''"
| "name RotateRight = ''RotateRight''"
| "name RotateLeft = ''RotateLeft''"

text \<open>The literal table of \<^verbatim>\<open>__init__\<close>; \<open>CHR 0x1B\<close> is the escape character.\<close>

definition static_interact_commands :: table where
  "static_interact_commands =
     [ (CHR 0x1B # ''[C'', [(''action'', PStr ''MoveRight''), (''moveMagnitude'', PFloat 0.25)]),
       (CHR 0x1B # ''[D'', [(''action'', PStr ''MoveLeft''), (''moveMagnitude'', PFloat 0.25)]),
       (CHR 0x1B # ''[A'', [(''action'', PStr ''MoveAhead''), (''moveMagnitude'', PFloat 0.25)]),
       (CHR 0x1B # ''[B'', [(''action'', PStr ''MoveBack''), (''moveMagnitude'', PFloat 0.25)]),
       (CHR 0x1B # ''[1;2A'', [(''action'', PStr ''LookUp'')]),
       (CHR 0x1B # ''[1;2B'', [(''action'', PStr ''LookDown'')]),
       (''i'', [(''action'', PStr ''LookUp'')]),
       (''k'', [(''action'', PStr ''LookDown'')]),
       (''l'', [(''action'', PStr ''RotateRight'')]),
       (''j'', [(''action'', PStr ''RotateLeft'')]),
       (CHR 0x1B # ''[1;2C'', [(''action'', PStr ''RotateRight'')]),
       (CHR 0x1B # ''[1;2D'', [(''action'', PStr ''RotateLeft'')]) ]"

text \<open>The attributes of the prompt object, together with the state of the controller it
  drives and the effects performed so far.\<close>

record ('c, 'f) session =
  default_interact_commands :: table
  has_object_actions :: bool
  image_per_frame :: bool
  image_dir :: string
  counter :: int
  interact_commands :: table
  controller :: 'c
  effects :: "'f effect list"










section \<open>Vocabulary of the properties\<close>

text \<open>An attribute of a descriptor is set (present and true), or cleared (present and
  false).\<close>

definition is_true :: "pydict \<Rightarrow> string \<Rightarrow> bool" where
  "is_true d k = (case d k of None \<Rightarrow> False | Some v \<Rightarrow> truthy v)"

definition is_false :: "pydict \<Rightarrow> string \<Rightarrow> bool" where
  "is_false d k = (case d k of None \<Rightarrow> False | Some v \<Rightarrow> \<not> truthy v)"

text \<open>The shape every state of the enumeration has: with the counter at \<open>c\<close>, the slots
  \<open>1\<close> to \<open>c - 1\<close> are taken, in this order.\<close>

definition slots_ok :: "enum_state \<Rightarrow> bool" where
  "slots_ok st =
     (1 \<le> command_counter st \<and>
      map fst (new_commands st) = map py_str [1..command_counter st - 1])"

text \<open>The keys of the dynamic slots: \<open>1\<close> to \<open>9\<close>, and \<open>10\<close> to \<open>14\<close>.\<close>

definition one_digit_keys :: "string list" where
  "one_digit_keys = map (\<lambda>c. [c]) ''123456789''"

definition two_digit_keys :: "string list" where
  "two_digit_keys = [''10'', ''11'', ''12'', ''13'', ''14'']"

text \<open>Commands whose action is neither \<^verbatim>\<open>PutObject\<close> nor \<^verbatim>\<open>ToggleObjectOff\<close>.\<close>

definition plain_action :: "command \<Rightarrow> bool" where
  "plain_action cmd \<longleftrightarrow>
     map_of cmd ''action'' \<in> Some ` PStr `
       {''CloseObject'', ''OpenObject'', ''PickupObject'', ''MoveHandAhead'', ''MoveHandBack'',
        ''MoveHandRight'', ''MoveHandLeft'', ''MoveHandUp'', ''MoveHandDown'', ''DropHandObject''}"

subsection \<open>Example scenes\<close>

definition closed_box :: pydict where
  "closed_box =
     [ ''objectId'' \<mapsto> PStr ''Box|1'', ''visible'' \<mapsto> PBool True,
       ''openable'' \<mapsto> PBool True, ''isopen'' \<mapsto> PBool False,
       ''toggleable'' \<mapsto> PBool False, ''receptacle'' \<mapsto> PBool False,
       ''pickupable'' \<mapsto> PBool True ]"

definition box_event :: "unit event" where
  "box_event =
     \<lparr> frame = None, instance_segmentation_frame = None, class_segmentation_frame = None,
       depth_frame = None,
       metadata = \<lparr> objects = [closed_box], inventoryObjects = [], agent_position = PNone \<rparr> \<rparr>"

definition box_state :: enum_state where
  "box_state =
     \<lparr> command_counter = 3,
       new_commands =
         [ (''1'', [(''action'', PStr ''OpenObject''), (''objectId'', PStr ''Box|1'')]),
           (''2'', [(''action'', PStr ''PickupObject''), (''objectId'', PStr ''Box|1'')]) ],
       visible_objects = [PStr ''Box|1''] \<rparr>"

text \<open>A descriptor without the \<^verbatim>\<open>toggleable\<close> attribute.\<close>

definition bare_mug :: pydict where
  "bare_mug =
     [ ''objectId'' \<mapsto> PStr ''Mug|2'', ''visible'' \<mapsto> PBool True,
       ''openable'' \<mapsto> PBool False, ''isopen'' \<mapsto> PBool False,
       ''receptacle'' \<mapsto> PBool False, ''pickupable'' \<mapsto> PBool True ]"

definition bare_mug_state :: enum_state where
  "bare_mug_state =
     \<lparr> command_counter = 2,
       new_commands =
         [ (''1'', [(''action'', PStr ''PickupObject''), (''objectId'', PStr ''Mug|2'')]) ],
       visible_objects = [PStr ''Mug|2''] \<rparr>"

definition open_cabinet :: pydict where
  "open_cabinet =
     [ ''objectId'' \<mapsto> PStr ''Cabinet|1'', ''visible'' \<mapsto> PBool True,
       ''openable'' \<mapsto> PBool True, ''isopen'' \<mapsto> PBool True,
       ''toggleable'' \<mapsto> PBool True, ''receptacle'' \<mapsto> PBool True,
       ''pickupable'' \<mapsto> PBool False ]"

definition open_fridge :: pydict where
  "open_fridge =
     [ ''objectId'' \<mapsto> PStr ''Fridge|1'', ''visible'' \<mapsto> PBool True,
       ''openable'' \<mapsto> PBool True, ''isopen'' \<mapsto> PBool True,
       ''toggleable'' \<mapsto> PBool True, ''receptacle'' \<mapsto> PBool True,
       ''pickupable'' \<mapsto> PBool False ]"

definition held_mug :: pydict where
  "held_mug = [ ''objectId'' \<mapsto> PStr ''Mug|1'' ]"

definition held_plate :: pydict where
  "held_plate = [ ''objectId'' \<mapsto> PStr ''Plate|1'' ]"


definition cabinet_commands :: table where
  "cabinet_commands =
     [ (''1'', [(''action'', PStr ''CloseObject''), (''objectId'', PStr ''Cabinet|1'')]),
       (''2'', [(''action'', PStr ''ToggleObjectOff''), (''objectId'', PStr ''Cabinet|1'')]),
       (''3'', [(''action'', PStr ''PutObject''), (''objectId'', PStr ''Mug|1''),
                (''receptacleObjectId'', PStr ''Cabinet|1'')]),
       (''4'', [(''action'', PStr ''MoveHandAhead''), (''moveMagnitude'', PFloat 0.1)]),
       (''5'', [(''action'', PStr ''MoveHandBack''), (''moveMagnitude'', PFloat 0.1)]),
       (''6'', [(''action'', PStr ''MoveHandRight''), (''moveMagnitude'', PFloat 0.1)]),
       (''7'', [(''action'', PStr ''MoveHandLeft''), (''moveMagnitude'', PFloat 0.1)]),
       (''8'', [(''action'', PStr ''MoveHandUp''), (''moveMagnitude'', PFloat 0.1)]),
       (''9'', [(''action'', PStr ''MoveHandDown''), (''moveMagnitude'', PFloat 0.1)]),
       (''10'', [(''action'', PStr ''DropHandObject'')]) ]"

definition cabinet_state :: enum_state where
  "cabinet_state =
     \<lparr> command_counter = 11, new_commands = cabinet_commands,
       visible_objects = [PStr ''Cabinet|1''] \<rparr>"

text \<open>Two qualifying receptacles: twenty affordances for fourteen slots.\<close>

definition crowded_event :: "unit event" where
  "crowded_event =
     \<lparr> frame = None, instance_segmentation_frame = None, class_segmentation_frame = None,
       depth_frame = None,
       metadata = \<lparr> objects = [open_cabinet, open_fridge],
                    inventoryObjects = [held_mug, held_plate], agent_position = PNone \<rparr> \<rparr>"

definition crowded_state :: enum_state where
  "crowded_state =
     \<lparr> command_counter = 15,
       new_commands = cabinet_commands @
         [ (''11'', [(''action'', PStr ''CloseObject''), (''objectId'', PStr ''Fridge|1'')]),
           (''12'', [(''action'', PStr ''ToggleObjectOff''), (''objectId'', PStr ''Fridge|1'')]),
           (''13'', [(''action'', PStr ''PutObject''), (''objectId'', PStr ''Mug|1''),
                    (''receptacleObjectId'', PStr ''Fridge|1'')]),
           (''14'', [(''action'', PStr ''MoveHandAhead''), (''moveMagnitude'', PFloat 0.1)]) ],
       visible_objects = [PStr ''Cabinet|1'', PStr ''Fridge|1''] \<rparr>"

text \<open>Events that carry one frame only, and a controller that always answers with the
  same event.\<close>

definition color_only_event :: "unit event" where
  "color_only_event =
     \<lparr> frame = Some (), instance_segmentation_frame = None, class_segmentation_frame = None,
       depth_frame = None,
       metadata = \<lparr> objects = [], inventoryObjects = [], agent_position = PNone \<rparr> \<rparr>"

definition depth_only_event :: "unit event" where
  "depth_only_event =
     \<lparr> frame = None, instance_segmentation_frame = None, class_segmentation_frame = None,
       depth_frame = Some (),
       metadata = \<lparr> objects = [], inventoryObjects = [], agent_position = PNone \<rparr> \<rparr>"



section \<open>Auxiliary facts\<close>

subsection \<open>Slots and the counter\<close>

lemma update_fresh: "k \<notin> fst ` set al \<Longrightarrow> AList.update k v al = al @ [(k, v)]"
  by (induction al) auto

lemma digit_char_val: "d < 10 \<Longrightarrow> of_char (digit_char d) = 48 + d"
proof -
  assume "d < 10"
  then have "d \<in> {0, 1, 2, 3, 4, 5, 6, 7, 8, 9}" by auto
  then show ?thesis by (auto simp: digit_char_def)
qed

lemma decode_str_nat:
  "foldl (\<lambda>a c. 10 * a + (of_char c - 48)) 0 (str_nat n) = n"
proof (induction n rule: str_nat.induct)
  case (1 n)
  show ?case
  proof (cases "n < 10")
    case True
    then show ?thesis by (subst str_nat.simps) (simp add: digit_char_val)
  next
    case False
    with 1 show ?thesis by (subst str_nat.simps) (simp add: digit_char_val)
  qed
qed

lemma str_nat_inj: "str_nat n = str_nat m \<Longrightarrow> n = m"
  by (metis decode_str_nat)

lemma py_str_inj: "0 \<le> i \<Longrightarrow> 0 \<le> j \<Longrightarrow> py_str i = py_str j \<Longrightarrow> i = j"
  by (auto simp: py_str_def dest: str_nat_inj)

lemma slot_fresh:
  assumes "slots_ok st"
  shows "py_str (command_counter st) \<notin> fst ` set (new_commands st)"
proof
  assume "py_str (command_counter st) \<in> fst ` set (new_commands st)"
  then have "py_str (command_counter st) \<in> set (map fst (new_commands st))" by simp
  with assms have "py_str (command_counter st) \<in> py_str ` {1..command_counter st - 1}"
    by (simp add: slots_ok_def)
  then obtain j where "1 \<le> j" "j \<le> command_counter st - 1" "py_str (command_counter st) = py_str j"
    by auto
  moreover from assms have "1 \<le> command_counter st" by (simp add: slots_ok_def)
  ultimately show False using py_str_inj [of "command_counter st" j] by simp
qed

lemma add_command_append:
  assumes "slots_ok st" "command_counter st < 15"
  shows "add_command st action args =
           st\<lparr> new_commands := new_commands st @
                   [(py_str (command_counter st), dict_update [(''action'', PStr action)] args)],
               command_counter := command_counter st + 1 \<rparr>"
  using slot_fresh [OF assms(1)] assms(2) by (simp add: add_command_def update_fresh)

lemma upto_snoc: "1 \<le> c \<Longrightarrow> [1..c] = [1..c - 1] @ [c]"
  by (simp add: upto_rec2)

lemma add_command_slots_ok:
  assumes "slots_ok st"
  shows "slots_ok (add_command st action args)"
proof (cases "command_counter st < 15")
  case True
  from assms have "1 \<le> command_counter st" by (simp add: slots_ok_def)
  with assms True show ?thesis
    by (simp add: add_command_append slots_ok_def upto_snoc)
next
  case False
  with assms show ?thesis by (simp add: add_command_def)
qed


lemma slots_ok_visible [simp]:
  "slots_ok (st\<lparr> visible_objects := v \<rparr>) = slots_ok st"
  by (simp add: slots_ok_def)

lemma fold_add_command_slots_ok:
  "slots_ok st \<Longrightarrow> slots_ok (fold (\<lambda>(a, args) s. add_command s a args) cs st)"
  by (induction cs arbitrary: st) (auto simp: add_command_slots_ok)

lemma fold_add_command_counter:
  "command_counter st + int (length cs) \<le> 15 \<Longrightarrow>
   command_counter (fold (\<lambda>(a, args) s. add_command s a args) cs st)
     = command_counter st + int (length cs)"
  by (induction cs arbitrary: st) (auto simp: add_command_def)

lemma fold_add_command_append:
  assumes "slots_ok st" "command_counter st + int (length cs) \<le> 15"
  shows "fold (\<lambda>(a, args) s. add_command s a args) cs st =
           st\<lparr> new_commands := new_commands st @
                   map (\<lambda>(i, a, args).
                          (py_str (command_counter st + int i),
                           dict_update [(''action'', PStr a)] args))
                       (enumerate 0 cs),
               command_counter := command_counter st + int (length cs) \<rparr>"
  using assms(2)
proof (induction cs rule: rev_induct)
  case Nil
  show ?case by simp
next
  case (snoc c cs)
  obtain a args where c: "c = (a, args)" by (cases c)
  let ?mid = "fold (\<lambda>(a, args) s. add_command s a args) cs st"
  from snoc.prems have le: "command_counter st + int (length cs) \<le> 15"
    and lt: "command_counter st + int (length cs) < 15" by simp_all
  have ok: "slots_ok ?mid" using assms(1) by (rule fold_add_command_slots_ok)
  have cnt: "command_counter ?mid = command_counter st + int (length cs)"
    using le by (rule fold_add_command_counter)
  have "fold (\<lambda>(a, args) s. add_command s a args) (cs @ [c]) st = add_command ?mid a args"
    by (simp add: c)
  also have "\<dots> = ?mid\<lparr> new_commands := new_commands ?mid @
                   [(py_str (command_counter ?mid), dict_update [(''action'', PStr a)] args)],
               command_counter := command_counter ?mid + 1 \<rparr>"
    using ok lt cnt by (intro add_command_append) simp_all
  finally show ?case
    using snoc.IH [OF le] by (simp add: c enumerate_append_eq cnt)
qed

lemma bind_err_Inr:
  "bind_err m f = Inr y \<longleftrightarrow> (\<exists>x. m = Inr x \<and> f x = Inr y)"
  by (cases m) (simp_all add: bind_err_def)

lemma add_command_capped:
  "slots_ok st \<and> command_counter st \<le> 15 \<Longrightarrow>
   slots_ok (add_command st a args) \<and> command_counter (add_command st a args) \<le> 15"
  by (auto simp: add_command_slots_ok) (simp add: add_command_def)

lemma hand_commands_capped:
  "slots_ok st \<and> command_counter st \<le> 15 \<Longrightarrow>
   slots_ok (hand_commands held oid st) \<and> command_counter (hand_commands held oid st) \<le> 15"
  unfolding hand_commands_def Let_def by (intro add_command_capped)

lemma open_branch_capped:
  assumes "open_branch o' st = Inr st'" and "slots_ok st \<and> command_counter st \<le> 15"
  shows "slots_ok st' \<and> command_counter st' \<le> 15"
  using assms add_command_capped [OF assms(2)]
  by (auto simp: open_branch_def bind_err_Inr split: if_splits)

lemma toggle_branch_capped:
  assumes "toggle_branch o' st = Inr st'" and "slots_ok st \<and> command_counter st \<le> 15"
  shows "slots_ok st' \<and> command_counter st' \<le> 15"
  using assms add_command_capped [OF assms(2)]
  by (auto simp: toggle_branch_def bind_err_Inr split: if_splits)

lemma inventory_branch_capped:
  assumes "inventory_branch held_items o' st = Inr st'"
    and "slots_ok st \<and> command_counter st \<le> 15"
  shows "slots_ok st' \<and> command_counter st' \<le> 15"
  using assms add_command_capped [OF assms(2)] hand_commands_capped [OF assms(2)]
  by (auto simp: inventory_branch_def bind_err_Inr split: if_splits list.splits)

lemma process_object_capped:
  assumes "process_object held_items o' st = Inr st'"
    and "slots_ok st \<and> command_counter st \<le> 15"
  shows "slots_ok st' \<and> command_counter st' \<le> 15"
proof (cases "\<exists>v. o' ''visible'' = Some v \<and> truthy v")
  case False
  with assms show ?thesis
    by (auto simp: process_object_def bind_err_Inr getitem_def split: option.splits if_splits)
next
  case True
  with assms(1) obtain oid s1 s2 where
    s1: "open_branch o' (st\<lparr> visible_objects := visible_objects st @ [oid] \<rparr>) = Inr s1"
    and s2: "toggle_branch o' s1 = Inr s2" and s3: "inventory_branch held_items o' s2 = Inr st'"
    by (auto simp: process_object_def bind_err_Inr getitem_def split: option.splits if_splits)
  have "slots_ok (st\<lparr> visible_objects := visible_objects st @ [oid] \<rparr>) \<and>
        command_counter (st\<lparr> visible_objects := visible_objects st @ [oid] \<rparr>) \<le> 15"
    using assms(2) by simp
  from inventory_branch_capped [OF s3 toggle_branch_capped [OF s2 open_branch_capped [OF s1 this]]]
  show ?thesis .
qed

lemma for_objects_capped:
  "for_objects held_items os st = Inr st' \<Longrightarrow> slots_ok st \<and> command_counter st \<le> 15 \<Longrightarrow>
   slots_ok st' \<and> command_counter st' \<le> 15"
proof (induction os arbitrary: st)
  case Nil
  then show ?case by simp
next
  case (Cons a os)
  from Cons.prems(1) obtain s1 where s1: "process_object held_items a st = Inr s1"
    and rest: "for_objects held_items os s1 = Inr st'"
    by (auto split: sum.splits)
  show ?case by (rule Cons.IH [OF rest process_object_capped [OF s1 Cons.prems(2)]])
qed

lemma initial_capped: "slots_ok initial_enum_state \<and> command_counter initial_enum_state \<le> 15"
  by (simp add: slots_ok_def initial_enum_state_def)

lemma enumerate_commands_capped:
  assumes "enumerate_commands b event = Inr en"
  shows "slots_ok en \<and> command_counter en \<le> 15"
proof (cases b)
  case True
  with assms for_objects_capped [OF _ initial_capped] show ?thesis
    by (simp add: enumerate_commands_def)
next
  case False
  with assms initial_capped show ?thesis by (auto simp: enumerate_commands_def)
qed


lemma toggle_branch_not_toggleable:
  "\<not> is_true o' ''toggleable'' \<Longrightarrow> toggle_branch o' st = Inr st"
  by (cases "o' ''toggleable''")
     (simp_all add: toggle_branch_def getitem_def bind_err_def is_true_def)


subsection \<open>Which commands a descriptor can add\<close>

lemma update_entries:
  "e \<in> set (AList.update k v al) \<Longrightarrow> e \<in> set al \<or> e = (k, v)"
  by (induction al) (auto split: if_splits)

lemma add_command_entries:
  "e \<in> set (new_commands (add_command st a args)) \<Longrightarrow>
   e \<in> set (new_commands st) \<or> snd e = dict_update [(''action'', PStr a)] args"
  by (auto simp: add_command_def dest: update_entries split: if_splits)

lemma fold_add_command_entries:
  "e \<in> set (new_commands (fold (\<lambda>(a, args) s. add_command s a args) cs st)) \<Longrightarrow>
   e \<in> set (new_commands st) \<or>
   snd e \<in> set (map (\<lambda>(a, args). dict_update [(''action'', PStr a)] args) cs)"
proof (induction cs arbitrary: st)
  case Nil
  then show ?case by simp
next
  case (Cons c cs)
  obtain a args where c: "c = (a, args)" by (cases c)
  from Cons.prems
  have "e \<in> set (new_commands
          (fold (\<lambda>(a, args) s. add_command s a args) cs (add_command st a args)))"
    by (simp add: c)
  from Cons.IH [OF this] show ?case
  proof
    assume "e \<in> set (new_commands (add_command st a args))"
    from add_command_entries [OF this] show ?thesis by (auto simp: c)
  next
    assume "snd e \<in> set (map (\<lambda>(a, args). dict_update [(''action'', PStr a)] args) cs)"
    then show ?thesis by simp
  qed
qed

lemma hand_commands_entries:
  assumes "e \<in> set (new_commands (hand_commands held oid st))"
  shows "e \<in> set (new_commands st) \<or> plain_action (snd e) \<or>
         snd e = [(''action'', PStr ''PutObject''), (''objectId'', held),
                  (''receptacleObjectId'', oid)]"
proof -
  let ?cs = "[ (''PutObject'', [(''objectId'', held), (''receptacleObjectId'', oid)]),
         (''MoveHandAhead'', [(''moveMagnitude'', PFloat 0.1)]),
         (''MoveHandBack'', [(''moveMagnitude'', PFloat 0.1)]),
         (''MoveHandRight'', [(''moveMagnitude'', PFloat 0.1)]),
         (''MoveHandLeft'', [(''moveMagnitude'', PFloat 0.1)]),
         (''MoveHandUp'', [(''moveMagnitude'', PFloat 0.1)]),
         (''MoveHandDown'', [(''moveMagnitude'', PFloat 0.1)]),
         (''DropHandObject'', []) ]"
  have "hand_commands held oid st = fold (\<lambda>(a, args) s. add_command s a args) ?cs st"
    by (simp add: hand_commands_def)
  with assms have "e \<in> set (new_commands st) \<or>
      snd e \<in> set (map (\<lambda>(a, args). dict_update [(''action'', PStr a)] args) ?cs)"
    using fold_add_command_entries by metis
  then show ?thesis
  proof
    assume "e \<in> set (new_commands st)" then show ?thesis by simp
  next
    assume "snd e \<in> set (map (\<lambda>(a, args). dict_update [(''action'', PStr a)] args) ?cs)"
    then have "snd e \<in> {[(''action'', PStr ''PutObject''), (''objectId'', held), (''receptacleObjectId'', oid)],
        [(''action'', PStr ''MoveHandAhead''), (''moveMagnitude'', PFloat 0.1)],
        [(''action'', PStr ''MoveHandBack''), (''moveMagnitude'', PFloat 0.1)],
        [(''action'', PStr ''MoveHandRight''), (''moveMagnitude'', PFloat 0.1)],
        [(''action'', PStr ''MoveHandLeft''), (''moveMagnitude'', PFloat 0.1)],
        [(''action'', PStr ''MoveHandUp''), (''moveMagnitude'', PFloat 0.1)],
        [(''action'', PStr ''MoveHandDown''), (''moveMagnitude'', PFloat 0.1)],
        [(''action'', PStr ''DropHandObject'')]}"
      by (simp add: dict_update_def)
    then show ?thesis by (elim insertE) (simp_all add: plain_action_def)
  qed
qed

lemma open_branch_entries:
  assumes "open_branch o' st = Inr st'" and "e \<in> set (new_commands st')"
  shows "e \<in> set (new_commands st) \<or> plain_action (snd e)"
  using assms
  by (auto simp: open_branch_def bind_err_Inr plain_action_def dict_update_def
      split: if_splits dest!: add_command_entries)

lemma toggle_branch_entries:
  assumes "toggle_branch o' st = Inr st'" and "e \<in> set (new_commands st')"
  shows "e \<in> set (new_commands st) \<or>
         (o' ''toggleable'' \<noteq> None \<and> map_of (snd e) ''action'' = Some (PStr ''ToggleObjectOff''))"
  using assms
  by (auto simp: toggle_branch_def bind_err_Inr dict_update_def
      split: if_splits dest!: add_command_entries)

lemma inventory_branch_entries:
  assumes "inventory_branch held_items o' st = Inr st'" and "e \<in> set (new_commands st')"
  shows "e \<in> set (new_commands st) \<or> plain_action (snd e) \<or>
         (\<exists>inv0 others held oid. held_items = inv0 # others \<and> inv0 ''objectId'' = Some held \<and>
            snd e = [(''action'', PStr ''PutObject''), (''objectId'', held),
                     (''receptacleObjectId'', oid)])"
proof (cases held_items)
  case Nil
  with assms show ?thesis
    by (auto simp: inventory_branch_def bind_err_Inr plain_action_def dict_update_def
        split: if_splits dest!: add_command_entries)
next
  case (Cons inv0 others)
  with assms show ?thesis
    by (auto simp: inventory_branch_def bind_err_Inr getitem_def
        split: if_splits option.splits dest!: hand_commands_entries)
qed

lemma process_object_entries:
  assumes "process_object held_items o' st = Inr st'" and "e \<in> set (new_commands st')"
  shows "e \<in> set (new_commands st) \<or> plain_action (snd e) \<or>
         (o' ''toggleable'' \<noteq> None \<and> map_of (snd e) ''action'' = Some (PStr ''ToggleObjectOff'')) \<or>
         (\<exists>inv0 others held oid. held_items = inv0 # others \<and> inv0 ''objectId'' = Some held \<and>
            snd e = [(''action'', PStr ''PutObject''), (''objectId'', held),
                     (''receptacleObjectId'', oid)])"
proof (cases "\<exists>v. o' ''visible'' = Some v \<and> truthy v")
  case False
  with assms show ?thesis
    by (auto simp: process_object_def bind_err_Inr getitem_def split: option.splits if_splits)
next
  case True
  with assms(1) obtain oid s1 s2 where
    s1: "open_branch o' (st\<lparr> visible_objects := visible_objects st @ [oid] \<rparr>) = Inr s1"
    and s2: "toggle_branch o' s1 = Inr s2" and s3: "inventory_branch held_items o' s2 = Inr st'"
    by (auto simp: process_object_def bind_err_Inr getitem_def split: option.splits if_splits)
  from inventory_branch_entries [OF s3 assms(2)] show ?thesis
  proof (elim disjE)
    assume "e \<in> set (new_commands s2)"
    from toggle_branch_entries [OF s2 this] show ?thesis
    proof
      assume "e \<in> set (new_commands s1)"
      from open_branch_entries [OF s1 this] show ?thesis by auto
    qed simp
  qed simp_all
qed


lemma plain_action_not_toggle:
  "plain_action cmd \<Longrightarrow> map_of cmd ''action'' \<noteq> Some (PStr ''ToggleObjectOff'')"
  by (auto simp: plain_action_def)






lemma getitem_toggleable_upd:
  "k \<noteq> ''toggleable'' \<Longrightarrow> getitem (o'(''toggleable'' \<mapsto> v)) k = getitem o' k"
  by (simp add: getitem_def)

lemma open_branch_toggleable_upd:
  "open_branch (o'(''toggleable'' \<mapsto> v)) = open_branch o'"
  by (intro ext) (simp add: open_branch_def getitem_toggleable_upd cong: if_cong)

lemma put_condition_toggleable_upd:
  "put_condition (o'(''toggleable'' \<mapsto> v)) = put_condition o'"
  by (intro ext) (simp add: put_condition_def getitem_toggleable_upd cong: if_cong)

lemma inventory_branch_toggleable_upd:
  "inventory_branch held_items (o'(''toggleable'' \<mapsto> v)) = inventory_branch held_items o'"
  by (intro ext)
     (simp add: inventory_branch_def put_condition_toggleable_upd getitem_toggleable_upd
        cong: if_cong list.case_cong)


subsection \<open>The interpreter on prefix-free keys\<close>



lemma py_str_slots: "map py_str [1..14] = one_digit_keys @ two_digit_keys"
  by (simp add: upto_rec1 py_str_def str_nat.simps digit_char_def one_digit_keys_def
      two_digit_keys_def)


lemma dynamic_keys:
  assumes "enumerate_commands b event = Inr en"
  shows "fst ` set (new_commands en) \<subseteq> set (map py_str [1..14])"
proof -
  from enumerate_commands_capped [OF assms]
  have keys: "map fst (new_commands en) = map py_str [1..command_counter en - 1]"
    and hi: "command_counter en \<le> 15"
    by (simp_all add: slots_ok_def)
  have "fst ` set (new_commands en) = set (map fst (new_commands en))" by simp
  also have "\<dots> = py_str ` {1..command_counter en - 1}" by (simp add: keys)
  also have "\<dots> \<subseteq> py_str ` {1..14}" using hi by (intro image_mono) auto
  finally show ?thesis by simp
qed






subsection \<open>Frame writing\<close>

text \<open>The effects of \<^verbatim>\<open>write_image\<close> do not depend on the four flags.\<close>

lemma write_image_flags_irrelevant:
  "write_image event dir n per_frame csf isf df cf
     = write_image event dir n per_frame csf' isf' df' cf'"
  by (simp add: write_image_def frame_writes_def)

subsection \<open>Evaluating the example scenes\<close>

lemma py_str_numerals:
  "py_str 0 = ''0''"
  "py_str 1 = ''1''" "py_str 2 = ''2''" "py_str 3 = ''3''" "py_str 4 = ''4''"
  "py_str 5 = ''5''" "py_str 6 = ''6''" "py_str 7 = ''7''" "py_str 8 = ''8''"
  "py_str 9 = ''9''" "py_str 10 = ''10''" "py_str 11 = ''11''" "py_str 12 = ''12''"
  "py_str 13 = ''13''" "py_str 14 = ''14''"
  by (simp_all add: py_str_def str_nat.simps digit_char_def)

lemma bind_err_simps: "bind_err (Inr x) f = f x" "bind_err (Inl e) f = Inl e"
  by (simp_all add: bind_err_def)

lemma bind_err_weak_cong: "m = m' \<Longrightarrow> bind_err m f = bind_err m' f"
  by simp

lemmas enumeration_defs =
  process_object_def open_branch_def toggle_branch_def inventory_branch_def put_condition_def
  hand_commands_def getitem_def bind_err_simps py_eq_def add_command_def dict_update_def
  py_str_numerals

lemma cabinet_run:
  "process_object [held_mug, held_plate] open_cabinet initial_enum_state = Inr cabinet_state"
  by (simp add: initial_enum_state_def open_cabinet_def held_mug_def enumeration_defs
      cabinet_state_def cabinet_commands_def cong: bind_err_weak_cong)

lemma fridge_run:
  "process_object [held_mug, held_plate] open_fridge cabinet_state = Inr crowded_state"
  by (simp add: open_fridge_def held_mug_def enumeration_defs
      cabinet_state_def cabinet_commands_def crowded_state_def cong: bind_err_weak_cong)


lemma crowded_event_commands:
  "enumerate_commands True crowded_event = Inr crowded_state"
  by (simp add: enumerate_commands_def crowded_event_def cabinet_run fridge_run)

lemma box_run: "process_object [] closed_box initial_enum_state = Inr box_state"
  by (simp add: initial_enum_state_def closed_box_def enumeration_defs box_state_def
      cong: bind_err_weak_cong)

lemma bare_mug_run: "process_object [] bare_mug initial_enum_state = Inr bare_mug_state"
  by (simp add: initial_enum_state_def bare_mug_def enumeration_defs bare_mug_state_def
      cong: bind_err_weak_cong)


section \<open>The claims\<close>

subsection \<open>C1: a closed, pickupable object and an empty hand\<close>

text \<open>
  Claim C1 (as amended).  For a visible object that is openable and currently closed, not
  toggleable (the attribute absent or false) and pickupable, with an empty inventory and at
  least two free slots, the commands generated for that object are exactly two, in this
  order: \<^verbatim>\<open>OpenObject\<close> targeting the object, then \<^verbatim>\<open>PickupObject\<close> targeting the object.
  The \<^verbatim>\<open>elif o['pickupable']\<close> belongs to the inventory test alone, so the openable branch
  does not pre-empt it.
\<close>

theorem closed_pickupable_object_commands:
  assumes "is_true o' ''visible''" and "is_true o' ''openable''" and "is_false o' ''isopen''"
    and "\<not> is_true o' ''toggleable''" and "is_true o' ''pickupable''"
    and "o' ''objectId'' = Some oid"
    and "slots_ok st" and "command_counter st + 2 \<le> 15"
  shows "process_object [] o' st =
           Inr (st\<lparr> visible_objects := visible_objects st @ [oid],
                    new_commands := new_commands st @
                      [ (py_str (command_counter st),
                           [(''action'', PStr ''OpenObject''), (''objectId'', oid)]),
                        (py_str (command_counter st + 1),
                           [(''action'', PStr ''PickupObject''), (''objectId'', oid)]) ],
                    command_counter := command_counter st + 2 \<rparr>)"
proof -
  let ?st1 = "st\<lparr> visible_objects := visible_objects st @ [oid] \<rparr>"
  let ?cs = "[ (''OpenObject'', [(''objectId'', oid)]),
               (''PickupObject'', [(''objectId'', oid)]) ]"
  from assms(1,2,3,5) obtain v1 v2 v3 v5 where vals:
    "o' ''visible'' = Some v1" "truthy v1" "o' ''openable'' = Some v2" "truthy v2"
    "o' ''isopen'' = Some v3" "\<not> truthy v3" "o' ''pickupable'' = Some v5" "truthy v5"
    by (auto simp: is_true_def is_false_def split: option.splits)
  have run: "process_object [] o' st =
          Inr (fold (\<lambda>(a, args) s. add_command s a args) ?cs ?st1)"
    using vals assms(6)
    by (simp add: process_object_def open_branch_def inventory_branch_def
        toggle_branch_not_toggleable [OF assms(4)] getitem_def bind_err_def)
  have ok: "slots_ok ?st1" using assms(7) by simp
  have le: "command_counter ?st1 + int (length ?cs) \<le> 15" using assms(8) by simp
  show ?thesis
    unfolding run fold_add_command_append [OF ok le]
    by (simp add: dict_update_def enumerate_eq_zip)
qed

text \<open>The claim as stated (exactly one entry, no \<^verbatim>\<open>PickupObject\<close>) fails on the event whose
  only object is such a box: the table has two entries.\<close>

theorem closed_pickupable_object_counterexample:
  "enumerate_commands True box_event
   = Inr \<lparr> command_counter = 3,
           new_commands =
             [ (''1'', [(''action'', PStr ''OpenObject''), (''objectId'', PStr ''Box|1'')]),
               (''2'', [(''action'', PStr ''PickupObject''), (''objectId'', PStr ''Box|1'')]) ],
           visible_objects = [PStr ''Box|1''] \<rparr>"
  by (simp add: enumerate_commands_def box_event_def box_run box_state_def)

theorem closed_pickupable_object_commands_witness:
  "is_true closed_box ''visible'' \<and> is_true closed_box ''openable'' \<and>
   is_false closed_box ''isopen'' \<and> \<not> is_true closed_box ''toggleable'' \<and>
   is_true closed_box ''pickupable'' \<and> closed_box ''objectId'' = Some (PStr ''Box|1'') \<and>
   slots_ok initial_enum_state \<and> command_counter initial_enum_state + 2 \<le> 15 \<and>
   process_object [] closed_box initial_enum_state
   = Inr \<lparr> command_counter = 3,
           new_commands =
             [ (''1'', [(''action'', PStr ''OpenObject''), (''objectId'', PStr ''Box|1'')]),
               (''2'', [(''action'', PStr ''PickupObject''), (''objectId'', PStr ''Box|1'')]) ],
           visible_objects = [PStr ''Box|1''] \<rparr>"
  using closed_pickupable_object_commands [of closed_box "PStr ''Box|1''" initial_enum_state]
  by (simp add: closed_box_def is_true_def is_false_def slots_ok_def initial_enum_state_def
      py_str_numerals)

subsection \<open>C8: an open, toggleable receptacle and a held item\<close>

text \<open>
  Claim C8.  For a visible object that is openable and open, toggleable and a receptacle,
  with a non-empty inventory whose first item is not that object, and with ten free slots,
  the commands generated for the object are, in this order: \<^verbatim>\<open>CloseObject\<close>,
  \<^verbatim>\<open>ToggleObjectOff\<close>, \<^verbatim>\<open>PutObject\<close>, \<^verbatim>\<open>MoveHandAhead\<close>, \<^verbatim>\<open>MoveHandBack\<close>,
  \<^verbatim>\<open>MoveHandRight\<close>, \<^verbatim>\<open>MoveHandLeft\<close>, \<^verbatim>\<open>MoveHandUp\<close>, \<^verbatim>\<open>MoveHandDown\<close>,
  \<^verbatim>\<open>DropHandObject\<close>.  Whether the object is pickupable is never read on this path.
\<close>

theorem open_toggle_put_order:
  assumes "is_true o' ''visible''" and "is_true o' ''openable''" and "is_true o' ''isopen''"
    and "is_true o' ''toggleable''" and "is_true o' ''receptacle''"
    and "o' ''objectId'' = Some oid"
    and "inv0 ''objectId'' = Some held" and "\<not> py_eq held oid"
    and "slots_ok st" and "command_counter st + 10 \<le> 15"
  shows "process_object (inv0 # others) o' st =
           Inr (st\<lparr> visible_objects := visible_objects st @ [oid],
                    new_commands := new_commands st @
                      [ (py_str (command_counter st),
                           [(''action'', PStr ''CloseObject''), (''objectId'', oid)]),
                        (py_str (command_counter st + 1),
                           [(''action'', PStr ''ToggleObjectOff''), (''objectId'', oid)]),
                        (py_str (command_counter st + 2),
                           [(''action'', PStr ''PutObject''), (''objectId'', held),
                            (''receptacleObjectId'', oid)]),
                        (py_str (command_counter st + 3),
                           [(''action'', PStr ''MoveHandAhead''), (''moveMagnitude'', PFloat 0.1)]),
                        (py_str (command_counter st + 4),
                           [(''action'', PStr ''MoveHandBack''), (''moveMagnitude'', PFloat 0.1)]),
                        (py_str (command_counter st + 5),
                           [(''action'', PStr ''MoveHandRight''), (''moveMagnitude'', PFloat 0.1)]),
                        (py_str (command_counter st + 6),
                           [(''action'', PStr ''MoveHandLeft''), (''moveMagnitude'', PFloat 0.1)]),
                        (py_str (command_counter st + 7),
                           [(''action'', PStr ''MoveHandUp''), (''moveMagnitude'', PFloat 0.1)]),
                        (py_str (command_counter st + 8),
                           [(''action'', PStr ''MoveHandDown''), (''moveMagnitude'', PFloat 0.1)]),
                        (py_str (command_counter st + 9),
                           [(''action'', PStr ''DropHandObject'')]) ],
                    command_counter := command_counter st + 10 \<rparr>)"
proof -
  let ?st1 = "st\<lparr> visible_objects := visible_objects st @ [oid] \<rparr>"
  let ?cs = "[ (''CloseObject'', [(''objectId'', oid)]),
               (''ToggleObjectOff'', [(''objectId'', oid)]),
               (''PutObject'', [(''objectId'', held), (''receptacleObjectId'', oid)]),
               (''MoveHandAhead'', [(''moveMagnitude'', PFloat 0.1)]),
               (''MoveHandBack'', [(''moveMagnitude'', PFloat 0.1)]),
               (''MoveHandRight'', [(''moveMagnitude'', PFloat 0.1)]),
               (''MoveHandLeft'', [(''moveMagnitude'', PFloat 0.1)]),
               (''MoveHandUp'', [(''moveMagnitude'', PFloat 0.1)]),
               (''MoveHandDown'', [(''moveMagnitude'', PFloat 0.1)]),
               (''DropHandObject'', []) ]"
  from assms(1-5) obtain v1 v2 v3 v4 v5 where vals:
    "o' ''visible'' = Some v1" "truthy v1" "o' ''openable'' = Some v2" "truthy v2"
    "o' ''isopen'' = Some v3" "truthy v3" "o' ''toggleable'' = Some v4" "truthy v4"
    "o' ''receptacle'' = Some v5" "truthy v5"
    by (auto simp: is_true_def split: option.splits)
  have run: "process_object (inv0 # others) o' st =
          Inr (fold (\<lambda>(a, args) s. add_command s a args) ?cs ?st1)"
    using vals assms(6-8)
    by (simp add: process_object_def open_branch_def toggle_branch_def inventory_branch_def
        put_condition_def hand_commands_def getitem_def bind_err_def)
  have ok: "slots_ok ?st1" using assms(9) by simp
  have le: "command_counter ?st1 + int (length ?cs) \<le> 15" using assms(10) by simp
  show ?thesis
    unfolding run fold_add_command_append [OF ok le]
    by (simp add: dict_update_def enumerate_eq_zip)
qed

theorem open_toggle_put_order_witness:
  "is_true open_cabinet ''visible'' \<and> is_true open_cabinet ''openable'' \<and>
   is_true open_cabinet ''isopen'' \<and> is_true open_cabinet ''toggleable'' \<and>
   is_true open_cabinet ''receptacle'' \<and> is_false open_cabinet ''pickupable'' \<and>
   open_cabinet ''objectId'' = Some (PStr ''Cabinet|1'') \<and>
   held_mug ''objectId'' = Some (PStr ''Mug|1'') \<and>
   \<not> py_eq (PStr ''Mug|1'') (PStr ''Cabinet|1'') \<and>
   slots_ok initial_enum_state \<and> command_counter initial_enum_state + 10 \<le> 15 \<and>
   process_object [held_mug, held_plate] open_cabinet initial_enum_state = Inr cabinet_state"
  using open_toggle_put_order [of open_cabinet "PStr ''Cabinet|1''" held_mug "PStr ''Mug|1''"
      initial_enum_state "[held_plate]"]
  by (simp add: open_cabinet_def held_mug_def is_true_def is_false_def py_eq_def slots_ok_def
      initial_enum_state_def cabinet_state_def cabinet_commands_def py_str_numerals)


subsection \<open>C7: the cap of fourteen slots\<close>

text \<open>
  Claim C7.  Whatever the event, the table generated in a step has at most 14 entries, and
  its keys are the decimal strings \<open>1\<close>, \<open>2\<close>, \<dots> up to the number of entries; once
  the counter has reached 15, \<^verbatim>\<open>add_command\<close> leaves the table and the counter as they
  are, and it has no way to fail.
\<close>

theorem dynamic_table_cap:
  "(enumerate_commands b event = Inr en \<longrightarrow>
      length (new_commands en) \<le> 14 \<and>
      map fst (new_commands en) = map py_str [1..int (length (new_commands en))] \<and>
      fst ` set (new_commands en) \<subseteq> set (one_digit_keys @ two_digit_keys))
   \<and> (15 \<le> command_counter st \<longrightarrow> add_command st action args = st)"
proof (intro conjI impI)
  assume "15 \<le> command_counter st"
  then show "add_command st action args = st" by (simp add: add_command_def)
next
  assume run: "enumerate_commands b event = Inr en"
  from enumerate_commands_capped [OF run]
  have keys: "map fst (new_commands en) = map py_str [1..command_counter en - 1]"
    and lo: "1 \<le> command_counter en" and hi: "command_counter en \<le> 15"
    by (simp_all add: slots_ok_def)
  from keys have "length (new_commands en) = length [1..command_counter en - 1]"
    by (metis length_map)
  with lo have len: "int (length (new_commands en)) = command_counter en - 1" by simp
  with hi show "length (new_commands en) \<le> 14" by linarith
  from keys len show "map fst (new_commands en) = map py_str [1..int (length (new_commands en))]"
    by simp
  from dynamic_keys [OF run]
  show "fst ` set (new_commands en) \<subseteq> set (one_digit_keys @ two_digit_keys)"
    unfolding py_str_slots .
qed

theorem dynamic_table_cap_witness:
  "enumerate_commands True crowded_event = Inr crowded_state \<and>
   length (new_commands crowded_state) \<le> 14 \<and>
   map fst (new_commands crowded_state) = map py_str [1..14] \<and>
   15 \<le> command_counter crowded_state \<and>
   add_command crowded_state ''DropHandObject'' [] = crowded_state"
  using dynamic_table_cap [of True crowded_event crowded_state crowded_state
      "''DropHandObject''" "[]"]
  by (simp add: crowded_event_commands)
     (simp add: crowded_state_def cabinet_commands_def)

subsection \<open>C9: only the first inventory item counts\<close>




subsection \<open>C10: a descriptor without the toggleable attribute\<close>

text \<open>
  Claim C10.  For a descriptor that lacks the \<^verbatim>\<open>toggleable\<close> attribute, the toggle branch
  returns the state unchanged and without an exception; the object is processed exactly as
  the same descriptor with \<^verbatim>\<open>toggleable\<close> set to false would be (so the other branches
  run as usual); and no entry that processing the object adds to the table is a
  \<^verbatim>\<open>ToggleObjectOff\<close> command.
\<close>

theorem missing_toggleable_is_not_toggleable:
  assumes "o' ''toggleable'' = None"
  shows "toggle_branch o' st = Inr st \<and>
         process_object held_items o' st
           = process_object held_items (o'(''toggleable'' \<mapsto> PBool False)) st \<and>
         (process_object held_items o' st = Inr st' \<longrightarrow>
          (\<forall>e \<in> set (new_commands st').
             e \<in> set (new_commands st) \<or>
             map_of (snd e) ''action'' \<noteq> Some (PStr ''ToggleObjectOff'')))"
proof (intro conjI impI ballI)
  show t: "toggle_branch o' st = Inr st" using assms by (simp add: toggle_branch_def)
  have "toggle_branch (o'(''toggleable'' \<mapsto> PBool False)) = toggle_branch o'"
    using assms by (intro ext) (simp add: toggle_branch_def getitem_def bind_err_def)
  then show "process_object held_items o' st
           = process_object held_items (o'(''toggleable'' \<mapsto> PBool False)) st"
    by (simp add: process_object_def open_branch_toggleable_upd inventory_branch_toggleable_upd
        getitem_toggleable_upd cong: if_cong)
next
  fix e
  assume run: "process_object held_items o' st = Inr st'" and e: "e \<in> set (new_commands st')"
  from process_object_entries [OF run e] assms
  show "e \<in> set (new_commands st) \<or>
        map_of (snd e) ''action'' \<noteq> Some (PStr ''ToggleObjectOff'')"
    by (auto dest: plain_action_not_toggle)
qed

theorem missing_toggleable_is_not_toggleable_witness:
  "bare_mug ''toggleable'' = None \<and>
   toggle_branch bare_mug initial_enum_state = Inr initial_enum_state \<and>
   process_object [] bare_mug initial_enum_state
     = process_object [] (bare_mug(''toggleable'' \<mapsto> PBool False)) initial_enum_state \<and>
   process_object [] bare_mug initial_enum_state = Inr bare_mug_state \<and>
   (''1'', [(''action'', PStr ''PickupObject''), (''objectId'', PStr ''Mug|2'')])
     \<in> set (new_commands bare_mug_state) \<and>
   map_of (snd (''1'', [(''action'', PStr ''PickupObject''), (''objectId'', PStr ''Mug|2'')]))
     ''action'' \<noteq> Some (PStr ''ToggleObjectOff'')"
  using missing_toggleable_is_not_toggleable [of bare_mug initial_enum_state "[]" bare_mug_state]
  by (simp add: bare_mug_run) (simp add: bare_mug_def bare_mug_state_def)

subsection \<open>C2: frame writing with every flag off\<close>

text \<open>
  Claim C2.  With all four channel flags false, \<^verbatim>\<open>write_image\<close> is claimed to write
  nothing and to print no ``No frame present'' line.  The loop unpacks the flag of each
  channel as \<^verbatim>\<open>condition\<close> and never tests it: on an event that carries a color frame and
  nothing else, with every flag false, the color image is written and the diagnostic is
  printed four times.
\<close>

theorem write_image_all_flags_off:
  "write_image color_only_event ''.'' 0 False False False False False
   = [ PrintShape (), Print ''Image ./color.png'',
       ImWrite ''./color.png'' (BGR2RGB (Unchanged ())),
       no_frame_message, no_frame_message, no_frame_message, no_frame_message ]
   \<and> list_ex is_disk_write (write_image color_only_event ''.'' 0 False False False False False)
   \<and> no_frame_message \<in> set (write_image color_only_event ''.'' 0 False False False False False)"
  by (simp add: write_image_def frame_writes_def image_name_def os_path_join_def
      suffix_to_prefix save_image_def array_to_image_def no_frame_message_def
      color_only_event_def)

subsection \<open>C6: the file name of the raw depth array\<close>

text \<open>
  Claim C6.  The raw depth array is claimed to be saved under the image name with its
  \<^verbatim>\<open>.png\<close> suffix removed.  The code calls \<^verbatim>\<open>name.strip('.png')\<close>, which removes every
  leading and trailing character among \<open>.\<close>, \<open>p\<close>, \<open>n\<close>, \<open>g\<close>: with the default
  directory \<^verbatim>\<open>.\<close> the image name is \<^verbatim>\<open>./depth_raw.png\<close> and the array goes to
  \<^verbatim>\<open>/depth_raw\<close>, not to \<^verbatim>\<open>./depth_raw\<close>.
\<close>

theorem depth_raw_name_default_dir:
  "image_name ''.'' ''depth_raw'' 0 False = ''./depth_raw.png'' \<and>
   write_image depth_only_event ''.'' 0 False False False True False
   = [ no_frame_message, no_frame_message, no_frame_message,
       PrintShape (), Print ''Image ./depth.png'', ImWrite ''./depth.png'' (MinMaxUint8 ()),
       PrintShape (), Print ''Image ./depth_raw.png'',
       NpSave ''/depth_raw'' (AsFloat32 (Unchanged ())) ]"
  by (simp add: write_image_def frame_writes_def image_name_def os_path_join_def
      suffix_to_prefix save_image_def array_to_image_def no_frame_message_def py_strip_def
      depth_only_event_def)

subsection \<open>C4: the terminal check of \<^verbatim>\<open>interact\<close>\<close>




subsection \<open>C5: the quit keys\<close>

text \<open>
  Claim C5 (as amended).  With an empty buffer, the character \<open>q\<close> or the interrupt byte
  ends the loop of \<^verbatim>\<open>next_interact_command\<close> without a command being yielded, whatever the
  command table and whatever input follows.  With a non-empty buffer no character ends the
  loop: the test compares the whole buffer with the quit sequences.
\<close>

theorem quit_on_empty_buffer:
  "interp_char commands [] (CHR ''q'') = Break
   \<and> interp_char commands [] (CHR 0x03) = Break
   \<and> feed commands [] (CHR ''q'' # rest) = Terminated
   \<and> feed commands [] (CHR 0x03 # rest) = Terminated
   \<and> (current_buffer \<noteq> [] \<longrightarrow> interp_char commands current_buffer ch \<noteq> Break)"
  by (auto simp: interp_char_def Let_def split: option.splits)

text \<open>The claim as stated (any buffer state) fails: after the escape character, a prefix of
  every arrow key, \<open>q\<close> and the interrupt byte only reset the buffer.\<close>

theorem quit_with_partial_buffer_counterexample:
  "interp_char static_interact_commands [CHR 0x1B] (CHR ''q'') = Continue []
   \<and> interp_char static_interact_commands [CHR 0x1B] (CHR 0x03) = Continue []
   \<and> feed static_interact_commands [CHR 0x1B] ''q'' = Pending []"
  by (simp add: interp_char_def static_interact_commands_def)

theorem quit_on_empty_buffer_witness:
  "interp_char static_interact_commands [] (CHR ''q'') = Break
   \<and> interp_char static_interact_commands [] (CHR 0x03) = Break
   \<and> feed static_interact_commands [] (CHR ''q'' # ''i'') = Terminated
   \<and> feed static_interact_commands [] (CHR 0x03 # ''i'') = Terminated
   \<and> [CHR 0x1B] \<noteq> []
   \<and> interp_char static_interact_commands [CHR 0x1B] (CHR ''q'') \<noteq> Break"
  using quit_on_empty_buffer [of static_interact_commands "''i''" "[CHR 0x1B]" "CHR ''q''"]
  by simp


subsection \<open>C3: feeding a key of the active table\<close>




end
